theory Spec2Isabelle
  imports Main "HOL-Library.Word" "HOL-Library.Sublist" "HOL-Library.Multiset"
begin

section \<open>Strings and panics\<close>

text \<open>
  A Go \<open>string\<close> is a sequence of bytes: \<open>len\<close> counts bytes and \<open>s[:n]\<close> slices
  bytes. It is modelled as \<^typ>\<open>string\<close> (a list of 8-bit characters). A Go \<open>int\<close> is a
  64-bit two's complement integer, modelled as \<^typ>\<open>64 word\<close> read with \<^const>\<open>sint\<close>
  where wrap-around can matter, and as \<^typ>\<open>int\<close> where the code cannot overflow.

  Run-time panics of the Go code are values of the type \<open>panic\<close>.
\<close>

datatype panic =
    SliceBoundsOutOfRange
  | SendOnClosedChannel
  | CloseOfClosedChannel
  | NegativeWaitGroupCounter

subsection \<open>truncateString (main.go, lines 234-240)\<close>

text \<open>
  \<^verbatim>\<open>
  func truncateString(s string, maxLen int) string {
      if len(s) <= maxLen { return s }
      return s[:maxLen-3] + "..."
  }
  \<close>
  The slice expression \<open>s[:hi]\<close> panics unless \<open>0 \<le> hi \<le> len(s)\<close>; the
  subtraction \<open>maxLen-3\<close> wraps around in 64 bits.
\<close>

definition truncateString :: "string \<Rightarrow> 64 word \<Rightarrow> panic + string" where
  "truncateString s maxLen =
     (if int (length s) \<le> sint maxLen then Inr s
      else (let hi = sint (maxLen - 3) in
            if hi < 0 \<or> int (length s) < hi then Inl SliceBoundsOutOfRange
            else Inr (take (nat hi) s @ ''...'')))"

section \<open>Properties of truncateString\<close>

lemma sint_minus3:
  fixes m :: "64 word"
  assumes "3 \<le> sint m"
  shows "sint (m - 3) = sint m - 3"
proof -
  have b: "sint m < 2 ^ 63" using sint_lt [of m] by simp
  have "sint (m - 3) = signed_take_bit 63 (sint m - 3)"
    by (simp add: sint_word_ariths)
  also have "\<dots> = sint m - 3"
    using assms b by (simp add: signed_take_bit_int_eq_self)
  finally show ?thesis .
qed

lemma sint_minus3_wrap:
  fixes m :: "64 word"
  assumes a: "sint m < 3"
  shows "sint (m - 3) < 0 \<or> 2 ^ 63 - 3 \<le> sint (m - 3)"
proof (cases "- (2 ^ 63) + 3 \<le> sint m")
  case True
  have "sint (m - 3) = signed_take_bit 63 (sint m - 3)"
    by (simp add: sint_word_ariths)
  also have "\<dots> = sint m - 3"
    using a True by (simp add: signed_take_bit_int_eq_self)
  finally show ?thesis using a by simp
next
  case False
  have lo: "- (2 ^ 63) \<le> sint m" using sint_ge [of m] by simp
  have "sint (m - 3) = signed_take_bit 63 (sint m - 3)"
    by (simp add: sint_word_ariths)
  also have "\<dots> = take_bit 64 (sint m - 3 + 2 ^ 63) - 2 ^ 63"
    by (simp add: signed_take_bit_eq_take_bit_shift)
  also have "take_bit 64 (sint m - 3 + 2 ^ 63) = (sint m - 3 + 2 ^ 63) mod 2 ^ 64"
    by (simp add: take_bit_eq_mod)
  also have "(sint m - 3 + 2 ^ 63) mod 2 ^ 64 = sint m - 3 + 2 ^ 63 + 2 ^ 64"
    using lo False by (simp add: int_mod_pos_eq [where q = "-1"])
  finally show ?thesis using lo by simp
qed

text \<open>
  Claim C10. For every string \<open>s\<close> and every \<open>maxLen \<ge> 3\<close>, \<open>truncateString\<close> returns
  \<open>s\<close> unchanged when \<open>len(s) \<le> maxLen\<close>, and otherwise a string of length exactly
  \<open>maxLen\<close> that ends in \<open>...\<close>; the slice bound \<open>maxLen-3\<close> then lies between 0 and
  \<open>len(s)\<close>, so the call does not panic. The precondition is needed: for \<open>maxLen < 3\<close>
  and a longer string (of a length a Go string can have) the call panics.
\<close>

theorem truncateString_spec:
  "(3 \<le> sint maxLen \<longrightarrow>
      (int (length s) \<le> sint maxLen \<longrightarrow> truncateString s maxLen = Inr s) \<and>
      (sint maxLen < int (length s) \<longrightarrow>
         0 \<le> sint (maxLen - 3) \<and> sint (maxLen - 3) \<le> int (length s) \<and>
         (\<exists>t. truncateString s maxLen = Inr t \<and> int (length t) = sint maxLen \<and>
              suffix ''...'' t))) \<and>
   (sint maxLen < 3 \<longrightarrow> sint maxLen < int (length s) \<longrightarrow> int (length s) < 2 ^ 63 - 3 \<longrightarrow>
      truncateString s maxLen = Inl SliceBoundsOutOfRange)"
proof (intro conjI impI)
  assume "3 \<le> sint maxLen" "int (length s) \<le> sint maxLen"
  then show "truncateString s maxLen = Inr s"
    by (simp add: truncateString_def)
next
  assume a: "3 \<le> sint maxLen" and b: "sint maxLen < int (length s)"
  from a show "0 \<le> sint (maxLen - 3)" by (simp add: sint_minus3)
  from a b show "sint (maxLen - 3) \<le> int (length s)" by (simp add: sint_minus3)
  let ?t = "take (nat (sint maxLen - 3)) s @ ''...''"
  have "truncateString s maxLen = Inr ?t"
    using a b by (simp add: truncateString_def sint_minus3)
  moreover have "int (length ?t) = sint maxLen"
    using a b by simp
  moreover have "suffix ''...'' ?t"
    by (rule suffixI) simp
  ultimately show "\<exists>t. truncateString s maxLen = Inr t \<and> int (length t) = sint maxLen \<and>
      suffix ''...'' t"
    by blast
next
  assume a: "sint maxLen < 3" and b: "sint maxLen < int (length s)"
    and c: "int (length s) < 2 ^ 63 - 3"
  from sint_minus3_wrap [OF a] c
  have "sint (maxLen - 3) < 0 \<or> int (length s) < sint (maxLen - 3)" by linarith
  with b show "truncateString s maxLen = Inl SliceBoundsOutOfRange"
    by (simp add: truncateString_def)
qed

theorem truncateString_spec_witness:
  "truncateString ''proxy.example:8080'' 50 = Inr ''proxy.example:8080'' \<and>
   truncateString ''proxy.example:8080'' 10 = Inr ''proxy.e...'' \<and>
   truncateString ''proxy.example:8080'' 2 = Inl SliceBoundsOutOfRange"
  using truncateString_spec [of 50 "''proxy.example:8080''"]
    truncateString_spec [of 10 "''proxy.example:8080''"]
    truncateString_spec [of 2 "''proxy.example:8080''"]
  by (simp add: truncateString_def)

end
